theory Spec2Isabelle
  imports Main "HOL-Library.Sublist"
begin

section \<open>Text primitives of the scripts\<close>

text \<open>
  The scripts under \<^verbatim>\<open>scripts/\<close> work on Python \<^verbatim>\<open>str\<close> values. They are
  embedded as \<^typ>\<open>string\<close>; the embedding covers ASCII text: \<^verbatim>\<open>str.upper\<close>,
  \<^verbatim>\<open>str.isspace\<close> and the regex class \<^verbatim>\<open>\s\<close> are given on code points below 128,
  where CPython's tables are fixed.
\<close>

definition LF :: char where
  "LF = CHR 0x0A"

text \<open>\<^verbatim>\<open>str.isspace\<close> on one character, which is also what \<^verbatim>\<open>\s\<close> accepts in a
  \<^verbatim>\<open>str\<close> pattern: TAB, LF, VT, FF, CR, the four separators FS..US, and SPACE.\<close>

definition isspace :: "char \<Rightarrow> bool" where
  "isspace c = (c \<in> set [CHR 0x09, CHR 0x0A, CHR 0x0B, CHR 0x0C, CHR 0x0D,
                          CHR 0x1C, CHR 0x1D, CHR 0x1E, CHR 0x1F, CHR 0x20])"

text \<open>\<^verbatim>\<open>str.upper\<close>, character by character.\<close>

definition char_upper :: "char \<Rightarrow> char" where
  "char_upper c =
     (case map_of (zip ''abcdefghijklmnopqrstuvwxyz'' ''ABCDEFGHIJKLMNOPQRSTUVWXYZ'') c of
        Some u \<Rightarrow> u
      | None \<Rightarrow> c)"

definition upper :: "string \<Rightarrow> string" where
  "upper s = map char_upper s"

text \<open>\<^verbatim>\<open>s.replace(a, b)\<close> for one-character \<^verbatim>\<open>a\<close> and \<^verbatim>\<open>b\<close>.\<close>

definition replace_char :: "char \<Rightarrow> char \<Rightarrow> string \<Rightarrow> string" where
  "replace_char a b s = map (\<lambda>c. if c = a then b else c) s"

text \<open>\<^verbatim>\<open>s.strip()\<close>: whitespace removed at both ends.\<close>

definition strip :: "string \<Rightarrow> string" where
  "strip s = rev (dropWhile isspace (rev (dropWhile isspace s)))"

text \<open>\<^verbatim>\<open>sub in s\<close>: some position of \<^verbatim>\<open>s\<close> starts with \<^verbatim>\<open>sub\<close>.\<close>

definition py_in :: "string \<Rightarrow> string \<Rightarrow> bool" where
  "py_in sub s = list_ex (\<lambda>k. prefix sub (drop k s)) [0..<Suc (length s)]"

text \<open>The first occurrence of \<^verbatim>\<open>sep\<close> in \<^verbatim>\<open>s\<close>, as \<^verbatim>\<open>s.split(sep, 1)\<close> finds it:
  the text before it and the text after it; \<open>None\<close> when \<^verbatim>\<open>sep\<close> does not occur
  (then \<^verbatim>\<open>split\<close> returns \<^verbatim>\<open>[s]\<close>).\<close>

fun split_first :: "string \<Rightarrow> string \<Rightarrow> (string \<times> string) option" where
  "split_first sep [] = (if sep = [] then Some ([], []) else None)"
| "split_first sep (c # cs) =
     (if prefix sep (c # cs) then Some ([], drop (length sep) (c # cs))
      else map_option (\<lambda>(a, b). (c # a, b)) (split_first sep cs))"

text \<open>\<^verbatim>\<open>s.split(c)\<close> for a one-character separator: always at least one piece.\<close>

fun split_on :: "char \<Rightarrow> string \<Rightarrow> string list" where
  "split_on c [] = [[]]"
| "split_on c (x # xs) =
     (if x = c then [] # split_on c xs
      else (case split_on c xs of
              [] \<Rightarrow> [[x]]
            | p # ps \<Rightarrow> (x # p) # ps))"

text \<open>\<^verbatim>\<open>sep.join(parts)\<close>.\<close>

fun join_with :: "string \<Rightarrow> string list \<Rightarrow> string" where
  "join_with sep [] = []"
| "join_with sep [p] = p"
| "join_with sep (p # q # ps) = p @ sep @ join_with sep (q # ps)"

text \<open>Decimal rendering of a count or a line number in an f-string.\<close>

definition digit_char :: "nat \<Rightarrow> char" where
  "digit_char d = ''0123456789'' ! d"

fun str_nat :: "nat \<Rightarrow> string" where
  "str_nat n = (if n < 10 then [digit_char n] else str_nat (n div 10) @ [digit_char (n mod 10)])"

declare str_nat.simps [simp del]

section \<open>check-header-guards.py: the expected guard\<close>

text \<open>
  \<^verbatim>\<open>Path(filepath).as_posix()\<close> on a POSIX host. pathlib splits off the root (one slash,
  or exactly two), drops empty and \<^verbatim>\<open>.\<close> components, joins the rest with \<^verbatim>\<open>/\<close>, and
  renders the empty path as \<^verbatim>\<open>.\<close>. It reads no file system.
\<close>

definition splitroot :: "string \<Rightarrow> string \<times> string" where
  "splitroot p =
     (if take 1 p \<noteq> ''/'' then ([], p)
      else if take 1 (drop 1 p) \<noteq> ''/'' \<or> take 1 (drop 2 p) = ''/''
           then (''/'', dropWhile (\<lambda>c. c = CHR ''/'') p)
           else (''//'', drop 2 p))"

definition as_posix :: "string \<Rightarrow> string" where
  "as_posix p =
     (let (root, rel) = splitroot p;
          parts = filter (\<lambda>x. x \<noteq> [] \<and> x \<noteq> ''.'') (split_on (CHR ''/'') rel);
          s = root @ join_with ''/'' parts
      in if s = [] then ''.'' else s)"

text \<open>
  Lines 14-18 of \<^verbatim>\<open>check_header_guard\<close>:
  \<^verbatim>\<open>relative_path = path.as_posix()\<close>,
  \<^verbatim>\<open>if 'src/' in relative_path: relative_path = relative_path.split('src/', 1)[1]\<close>,
  \<^verbatim>\<open>expected_guard = relative_path.replace('/', '_').replace('.', '_').upper()\<close>.
  The test \<^verbatim>\<open>in\<close> and the split look for the same first occurrence, so the branch
  where \<^verbatim>\<open>in\<close> is false is the \<open>None\<close> of \<^const>\<open>split_first\<close>.
\<close>

definition relative_path :: "string \<Rightarrow> string" where
  "relative_path filepath =
     (let p = as_posix filepath
      in if py_in ''src/'' p
         then (case split_first ''src/'' p of Some (before, rest) \<Rightarrow> rest | None \<Rightarrow> p)
         else p)"

definition expected_guard :: "string \<Rightarrow> string" where
  "expected_guard filepath =
     upper (replace_char (CHR ''.'') (CHR ''_'') (replace_char (CHR ''/'') (CHR ''_'')
       (relative_path filepath)))"


section \<open>Regular expressions\<close>

text \<open>
  The patterns the scripts compile use literals, alternation, an optional group, and
  \<^verbatim>\<open>+\<close> on a character class (\<^verbatim>\<open>\s\<close>, \<^verbatim>\<open>.\<close> without DOTALL, \<^verbatim>\<open>[^...]\<close>).
  \<^verbatim>\<open>re.escape(w)\<close> inside a pattern is the literal \<^verbatim>\<open>w\<close>.
\<close>

datatype cls = Space | Dot | Not_of "char list"

fun in_cls :: "cls \<Rightarrow> char \<Rightarrow> bool" where
  "in_cls Space c = isspace c"
| "in_cls Dot c = (c \<noteq> LF)"
| "in_cls (Not_of cs) c = (c \<notin> set cs)"

datatype regex = Lit string | Many1 cls | Alt regex regex | Seq regex regex | Opt regex

text \<open>A backtracking matcher: every way \<^verbatim>\<open>r\<close> can match at the start of \<^verbatim>\<open>s\<close>, as the
  text left over, in the order the engine tries them (a greedy \<^verbatim>\<open>+\<close> gives back one
  character at a time, an optional group is tried before it is skipped).\<close>

fun rests :: "regex \<Rightarrow> string \<Rightarrow> string list" where
  "rests (Lit w) s = (if prefix w s then [drop (length w) s] else [])"
| "rests (Many1 c) s =
     map (\<lambda>k. drop k s) (rev [1..<Suc (length (takeWhile (in_cls c) s))])"
| "rests (Alt a b) s = rests a s @ rests b s"
| "rests (Seq a b) s = concat (map (rests b) (rests a s))"
| "rests (Opt a) s = rests a s @ [s]"

text \<open>\<^verbatim>\<open>pattern.search(s)\<close> as a truth value: a match starting at some position.\<close>

definition re_search :: "regex \<Rightarrow> string \<Rightarrow> bool" where
  "re_search r s = list_ex (\<lambda>k. rests r (drop k s) \<noteq> []) [0..<Suc (length s)]"

text \<open>The words a pattern denotes.\<close>

fun lang :: "regex \<Rightarrow> string set" where
  "lang (Lit w) = {w}"
| "lang (Many1 c) = {w. w \<noteq> [] \<and> list_all (in_cls c) w}"
| "lang (Alt a b) = lang a \<union> lang b"
| "lang (Seq a b) = {w. \<exists>u v. w = u @ v \<and> u \<in> lang a \<and> v \<in> lang b}"
| "lang (Opt a) = insert [] (lang a)"

section \<open>Files and the shared runner\<close>

text \<open>
  What \<^verbatim>\<open>open(filepath, 'r', encoding='utf-8')\<close> followed by a read gives for a path:
  \<open>Inr\<close> the decoded text, or \<open>Inl\<close> the message of the exception raised
  (\<^verbatim>\<open>str(e)\<close>). Each checker catches \<^verbatim>\<open>Exception\<close>, prints one line and returns False.
  A checker returns what it printed (one string per \<^verbatim>\<open>print\<close> call) and its verdict.
\<close>

type_synonym file_system = "string \<Rightarrow> string + string"

definition read_error_line :: "string \<Rightarrow> string \<Rightarrow> string" where
  "read_error_line filepath e = ''Error reading '' @ filepath @ '': '' @ e"

text \<open>\<^verbatim>\<open>f.readlines()\<close>: the text cut after each line feed, which stays on its line.\<close>

fun readlines :: "string \<Rightarrow> string list" where
  "readlines [] = []"
| "readlines (c # cs) =
     (if c = LF then [c] # readlines cs
      else (case readlines cs of
              [] \<Rightarrow> [[c]]
            | l # ls \<Rightarrow> (c # l) # ls))"

text \<open>
  The three \<^verbatim>\<open>main\<close> functions of check-header-guards.py, check-todos.py and
  check-namespaces.py are the same text up to the checker called and the words of the
  summary. The \<^verbatim>\<open>for\<close> loop carries what has been printed and the list \<^verbatim>\<open>failed\<close>.
\<close>

fun check_loop ::
  "(string \<Rightarrow> string list \<times> bool) \<Rightarrow> string list \<Rightarrow> string list \<times> string list
   \<Rightarrow> string list \<times> string list" where
  "check_loop check [] (out, failed) = (out, failed)"
| "check_loop check (filepath # files) (out, failed) =
     (case check filepath of
        (printed, ok) \<Rightarrow>
          check_loop check files
            (out @ printed, if \<not> ok then failed @ [filepath] else failed))"

definition summary_line :: "string \<Rightarrow> nat \<Rightarrow> string" where
  "summary_line what n = LF # str_nat n @ '' file(s) with '' @ what @ '' issues''"

definition runner_main ::
  "(string \<Rightarrow> string list \<times> bool) \<Rightarrow> string \<Rightarrow> string list \<Rightarrow> string list \<times> int" where
  "runner_main check what argv =
     (if length argv < 2 then ([], 0)
      else (case check_loop check (tl argv) ([], []) of
              (out, failed) \<Rightarrow>
                if failed \<noteq> [] then (out @ [summary_line what (length failed)], 1)
                else (out, 0)))"

section \<open>check-header-guards.py\<close>

definition ifndef_pattern :: "string \<Rightarrow> regex" where
  "ifndef_pattern guard = Seq (Lit ''#ifndef'') (Seq (Many1 Space) (Lit guard))"

definition define_pattern :: "string \<Rightarrow> regex" where
  "define_pattern guard = Seq (Lit ''#define'') (Seq (Many1 Space) (Lit guard))"

definition missing_guard_line :: "string \<Rightarrow> string \<Rightarrow> string" where
  "missing_guard_line filepath guard =
     filepath @ '': Missing proper header guard (expected: '' @ guard @ '' or #pragma once)''"

text \<open>Lines 27-42: the decision on the text read.\<close>

definition header_guard_content :: "string \<Rightarrow> string \<Rightarrow> string list \<times> bool" where
  "header_guard_content filepath content =
     (if py_in ''#pragma once'' content then ([], True)
      else let has_ifndef = re_search (ifndef_pattern (expected_guard filepath)) content;
               has_define = re_search (define_pattern (expected_guard filepath)) content
           in if has_ifndef \<and> has_define then ([], True)
              else ([missing_guard_line filepath (expected_guard filepath)], False))"

definition check_header_guard :: "file_system \<Rightarrow> string \<Rightarrow> string list \<times> bool" where
  "check_header_guard fs filepath =
     (case fs filepath of
        Inl e \<Rightarrow> ([read_error_line filepath e], False)
      | Inr content \<Rightarrow> header_guard_content filepath content)"

definition check_header_guards_main :: "file_system \<Rightarrow> string list \<Rightarrow> string list \<times> int" where
  "check_header_guards_main fs argv = runner_main (check_header_guard fs) ''header guard'' argv"


section \<open>check-todos.py\<close>

text \<open>\<^verbatim>\<open>//(TODO|FIXME)(\([^)]+\))?:\s+.+\<close> and \<^verbatim>\<open>//(TODO|FIXME)\<close>.\<close>

definition valid_pattern :: regex where
  "valid_pattern =
     Seq (Lit ''//'') (Seq (Alt (Lit ''TODO'') (Lit ''FIXME''))
       (Seq (Opt (Seq (Lit ''('') (Seq (Many1 (Not_of '')'')) (Lit '')''))))
         (Seq (Lit '':'') (Seq (Many1 Space) (Many1 Dot)))))"

definition todo_pattern :: regex where
  "todo_pattern = Seq (Lit ''//'') (Alt (Lit ''TODO'') (Lit ''FIXME''))"

definition issue_line :: "nat \<Rightarrow> string \<Rightarrow> string" where
  "issue_line i line = ''  Line '' @ str_nat i @ '': '' @ strip line"

text \<open>The loop \<^verbatim>\<open>for i, line in enumerate(lines, 1)\<close>, carrying \<^verbatim>\<open>issues\<close>.\<close>

fun scan_lines :: "nat \<Rightarrow> string list \<Rightarrow> string list \<Rightarrow> string list" where
  "scan_lines i [] issues = issues"
| "scan_lines i (line # lines) issues =
     scan_lines (Suc i) lines
       (if re_search todo_pattern line
        then (if \<not> re_search valid_pattern line then issues @ [issue_line i line] else issues)
        else issues)"

definition todo_issues :: "string list \<Rightarrow> string list" where
  "todo_issues lines = scan_lines 1 lines []"

definition check_todos :: "file_system \<Rightarrow> string \<Rightarrow> string list \<times> bool" where
  "check_todos fs filepath =
     (case fs filepath of
        Inl e \<Rightarrow> ([read_error_line filepath e], False)
      | Inr text \<Rightarrow>
          (let issues = todo_issues (readlines text)
           in if issues \<noteq> []
              then ([filepath @ '':'',
                     ''  TODO/FIXME must be formatted as: // TODO: description''] @ issues, False)
              else ([], True)))"

definition check_todos_main :: "file_system \<Rightarrow> string list \<Rightarrow> string list \<times> int" where
  "check_todos_main fs argv = runner_main (check_todos fs) ''TODO/FIXME format'' argv"

text \<open>The claim's words: a line carries a marker; a line has the strict format.\<close>

definition has_marker :: "string \<Rightarrow> bool" where
  "has_marker line = (sublist ''//TODO'' line \<or> sublist ''//FIXME'' line)"

definition strict_format :: "string \<Rightarrow> bool" where
  "strict_format line =
     (\<exists>pre kw attr ws txt post.
        line = pre @ ''//'' @ kw @ attr @ '':'' @ ws @ txt @ post
        \<and> (kw = ''TODO'' \<or> kw = ''FIXME'')
        \<and> (attr = [] \<or> (\<exists>who. who \<noteq> [] \<and> CHR '')'' \<notin> set who \<and> attr = ''('' @ who @ '')''))
        \<and> ws \<noteq> [] \<and> list_all isspace ws
        \<and> txt \<noteq> [] \<and> LF \<notin> set txt)"

definition malformed :: "string \<Rightarrow> bool" where
  "malformed line = (has_marker line \<and> \<not> strict_format line)"


section \<open>check-namespaces.py\<close>

text \<open>After the read, \<^verbatim>\<open>check_namespaces\<close> computes two \<^verbatim>\<open>findall\<close> lists, uses neither,
  and returns True.\<close>

definition check_namespaces :: "file_system \<Rightarrow> string \<Rightarrow> string list \<times> bool" where
  "check_namespaces fs filepath =
     (case fs filepath of
        Inl e \<Rightarrow> ([read_error_line filepath e], False)
      | Inr content \<Rightarrow> ([], True))"

definition check_namespaces_main :: "file_system \<Rightarrow> string list \<Rightarrow> string list \<times> int" where
  "check_namespaces_main fs argv = runner_main (check_namespaces fs) ''namespace format'' argv"

section \<open>run-clang-tidy.py\<close>











section \<open>run\_command in run-code-quality.py and run-coverage.py\<close>

text \<open>
  \<^verbatim>\<open>subprocess.run\<close> is the environment: given the call (command, \<^verbatim>\<open>timeout\<close>, \<^verbatim>\<open>check\<close>) it
  returns a completed process (return code, stdout, stderr) or raises. An exception
  carries its text \<^verbatim>\<open>str(e)\<close>; \<^verbatim>\<open>CalledProcessError\<close> also carries the captured output.
  The call is synchronous: the function returns only with the outcome of the process. The
  remaining keyword arguments (text mode, which streams are captured, \<^verbatim>\<open>cwd\<close>) do not
  enter the statements below.
\<close>

datatype py_exception = CalledProcessError string string | TimeoutExpired string | OSError string

fun str_exception :: "py_exception \<Rightarrow> string" where
  "str_exception (CalledProcessError msg out) = msg"
| "str_exception (TimeoutExpired msg) = msg"
| "str_exception (OSError msg) = msg"

datatype run_result = Completed int string string | Raised py_exception

record run_call =
  call_cmd :: "string list"
  call_timeout :: "nat option"
  call_check :: bool

type_synonym subprocess_run = "run_call \<Rightarrow> run_result"

text \<open>run-code-quality.py, lines 14-21: \<^verbatim>\<open>timeout=300\<close>, and \<^verbatim>\<open>except Exception\<close> turns
  every exception into the result \<^verbatim>\<open>(False, "", str(e))\<close>.\<close>

definition quality_run_command ::
  "subprocess_run \<Rightarrow> string list \<Rightarrow> string \<Rightarrow> string list \<times> (bool \<times> string \<times> string)" where
  "quality_run_command run cmd description =
     ([''[*] '' @ description],
      case run \<lparr>call_cmd = cmd, call_timeout = Some 300, call_check = False\<rparr> of
        Completed returncode out err \<Rightarrow> (returncode = 0, out, err)
      | Raised e \<Rightarrow> (False, [], str_exception e))"

text \<open>run-coverage.py, lines 102-119: no \<^verbatim>\<open>timeout\<close> argument; only \<^verbatim>\<open>CalledProcessError\<close> is
  caught, reported and raised again, every other exception leaves \<^verbatim>\<open>run_command\<close> as it
  is (\<open>Inl\<close>). \<^verbatim>\<open>cross\<close> is the coloured mark that \<^verbatim>\<open>print_error\<close> puts first.\<close>

definition coverage_run_command ::
  "string \<Rightarrow> subprocess_run \<Rightarrow> string list \<Rightarrow> bool
   \<Rightarrow> string list \<times> (py_exception + int \<times> string)" where
  "coverage_run_command cross run cmd check =
     (case run \<lparr>call_cmd = cmd, call_timeout = None, call_check = check\<rparr> of
        Completed returncode out err \<Rightarrow> ([], Inr (returncode, out))
      | Raised (CalledProcessError msg out) \<Rightarrow>
          ([cross @ '' Command failed: '' @ join_with '' '' cmd, out],
           Inl (CalledProcessError msg out))
      | Raised e \<Rightarrow> ([], Inl e))"

section \<open>Notions used in the statements\<close>

text \<open>The files whose check fails, in the order given: the list \<^verbatim>\<open>failed\<close> at the end of
  the loop, whose length the summary prints.\<close>

definition failing :: "(string \<Rightarrow> string list \<times> bool) \<Rightarrow> string list \<Rightarrow> string list" where
  "failing check files = filter (\<lambda>f. \<not> snd (check f)) files"

text \<open>A small file system for the worked examples: a header with the pragma, a source file
  with a malformed annotation, and every other path unreadable.\<close>

definition example_fs :: file_system where
  "example_fs p =
     (if p = ''src/a.h'' then Inr ''#pragma once''
      else if p = ''src/b.h'' then Inr ''int x; //TODO later''
      else Inl ''[Errno 13] Permission denied'')"



section \<open>Facts about the text primitives\<close>


lemma split_first_None: "split_first sep s = None \<longleftrightarrow> \<not> sublist sep s"
  by (induction s) (auto simp: sublist_Cons_right)

lemma split_first_Some_append:
  "split_first sep s = Some (a, b) \<Longrightarrow> s = a @ sep @ b"
proof (induction s arbitrary: a)
  case Nil
  then show ?case by (auto split: if_splits)
next
  case (Cons c cs)
  show ?case
  proof (cases "prefix sep (c # cs)")
    case True
    with Cons.prems show ?thesis
      by (auto simp: prefix_def)
  next
    case False
    with Cons.prems obtain a' where "split_first sep cs = Some (a', b)" and "a = c # a'"
      by auto
    with Cons.IH show ?thesis by auto
  qed
qed



section \<open>The matcher computes the language\<close>

lemma take_le_takeWhile:
  assumes "k \<le> length (takeWhile P s)"
  shows "list_all P (take k s)"
proof -
  have "take k s = take k (takeWhile P s @ dropWhile P s)" by simp
  also have "\<dots> = take k (takeWhile P s)"
    using assms by (simp del: takeWhile_dropWhile_id)
  finally have "set (take k s) \<subseteq> set (takeWhile P s)"
    by (simp add: set_take_subset)
  then show ?thesis
    by (auto simp: list_all_iff dest: set_takeWhileD)
qed

lemma many1_rests:
  "set (map (\<lambda>k. drop k s) (rev [1..<Suc (length (takeWhile P s))])) =
   {t. \<exists>w. (w \<noteq> [] \<and> list_all P w) \<and> s = w @ t}" (is "?L = ?R")
proof (intro set_eqI iffI)
  fix t
  assume "t \<in> ?L"
  then obtain k where k: "1 \<le> k" "k \<le> length (takeWhile P s)" and t: "t = drop k s"
    by auto
  have a: "list_all P (take k s)"
    using k(2) by (rule take_le_takeWhile)
  have "k \<le> length s"
    using k(2) length_takeWhile_le[of P s] by linarith
  then have "length (take k s) = k" by simp
  then have b: "take k s \<noteq> []"
    using k(1) by auto
  have "s = take k s @ t" using t by simp
  with a b show "t \<in> ?R" by blast
next
  fix t
  assume "t \<in> ?R"
  then obtain w where w: "w \<noteq> []" "list_all P w" "s = w @ t"
    by blast
  then have "takeWhile P s = w @ takeWhile P t"
    by (simp add: list_all_iff takeWhile_append2)
  then have "length w \<le> length (takeWhile P s)" by simp
  moreover have "1 \<le> length w" using w(1) by (cases w) auto
  moreover have "t = drop (length w) s" using w(3) by simp
  ultimately have "\<exists>k. 1 \<le> k \<and> k \<le> length (takeWhile P s) \<and> t = drop k s"
    by blast
  then show "t \<in> ?L"
    by (auto simp: image_iff)
qed

lemma set_rests: "set (rests r s) = {t. \<exists>w. w \<in> lang r \<and> s = w @ t}"
proof (induction r arbitrary: s)
  case (Lit w)
  then show ?case by (auto simp: prefix_def)
next
  case (Many1 c)
  show ?case
    using many1_rests[of s "in_cls c"] by simp
next
  case (Alt a b)
  then show ?case by auto
next
  case (Seq a b)
  have "set (rests (Seq a b) s) = (\<Union>t \<in> set (rests a s). set (rests b t))"
    by simp
  also have "\<dots> = {t. \<exists>u v. u \<in> lang a \<and> v \<in> lang b \<and> s = (u @ v) @ t}"
    unfolding Seq.IH by auto
  also have "\<dots> = {t. \<exists>w. w \<in> lang (Seq a b) \<and> s = w @ t}"
    by (auto; blast)
  finally show ?case .
next
  case (Opt a)
  then show ?case by auto
qed

lemma re_search_iff:
  "re_search r s \<longleftrightarrow> (\<exists>pre w post. w \<in> lang r \<and> s = pre @ w @ post)"
proof
  assume "re_search r s"
  then obtain k where "rests r (drop k s) \<noteq> []"
    unfolding re_search_def list_ex_iff by blast
  then obtain t where "t \<in> set (rests r (drop k s))"
    by (cases "rests r (drop k s)") auto
  then obtain w where "w \<in> lang r" "drop k s = w @ t"
    unfolding set_rests by blast
  moreover have "s = take k s @ drop k s" by simp
  ultimately have "w \<in> lang r \<and> s = take k s @ w @ t" by simp
  then show "\<exists>pre w post. w \<in> lang r \<and> s = pre @ w @ post"
    by blast
next
  assume "\<exists>pre w post. w \<in> lang r \<and> s = pre @ w @ post"
  then obtain pre w post where w: "w \<in> lang r" and s: "s = pre @ w @ post"
    by blast
  then have "post \<in> set (rests r (drop (length pre) s))"
    unfolding set_rests by auto
  then have "rests r (drop (length pre) s) \<noteq> []" by auto
  moreover have "length pre \<in> set [0..<Suc (length s)]" using s by auto
  ultimately show "re_search r s"
    unfolding re_search_def list_ex_iff by blast
qed

section \<open>What the patterns of check-todos.py accept\<close>

lemma search_two_literals:
  "(\<exists>pre w post. w \<in> {a, b} \<and> s = pre @ w @ post) \<longleftrightarrow> sublist a s \<or> sublist b s"
  unfolding sublist_def by blast

lemma lang_marker_shape:
  "lang (Seq (Lit sl) (Alt (Lit k1) (Lit k2))) = {sl @ k1, sl @ k2}"
  by auto

lemma todo_pattern_search: "re_search todo_pattern line \<longleftrightarrow> has_marker line"
proof -
  have "lang todo_pattern = {''//'' @ ''TODO'', ''//'' @ ''FIXME''}"
    unfolding todo_pattern_def by (rule lang_marker_shape)
  then have "re_search todo_pattern line \<longleftrightarrow>
      sublist (''//'' @ ''TODO'') line \<or> sublist (''//'' @ ''FIXME'') line"
    unfolding re_search_iff by (simp only: search_two_literals)
  then show ?thesis
    by (simp add: has_marker_def)
qed

lemma lang_Lit_Seq: "w \<in> lang (Seq (Lit a) r) \<longleftrightarrow> (\<exists>v. w = a @ v \<and> v \<in> lang r)"
  by simp

lemma lang_attr_shape:
  "u \<in> lang (Opt (Seq (Lit lp) (Seq (Many1 c1) (Lit rp)))) \<longleftrightarrow>
   (u = [] \<or> (\<exists>who. who \<noteq> [] \<and> list_all (in_cls c1) who \<and> u = lp @ who @ rp))"
  by auto

lemma lang_tail_shape:
  "v \<in> lang (Seq (Lit col) (Seq (Many1 c2) (Many1 c3))) \<longleftrightarrow>
   (\<exists>ws txt. v = col @ ws @ txt \<and> ws \<noteq> [] \<and> list_all (in_cls c2) ws
      \<and> txt \<noteq> [] \<and> list_all (in_cls c3) txt)"
  by auto

lemma lang_SeqE:
  assumes "w \<in> lang (Seq a b)"
  obtains u v where "w = u @ v" "u \<in> lang a" "v \<in> lang b"
  using assms by auto

lemma lang_SeqI: "u \<in> lang a \<Longrightarrow> v \<in> lang b \<Longrightarrow> u @ v \<in> lang (Seq a b)"
  by auto

lemma lang_strict_shape:
  "w \<in> lang (Seq (Lit sl) (Seq (Alt (Lit k1) (Lit k2))
         (Seq (Opt (Seq (Lit lp) (Seq (Many1 c1) (Lit rp))))
           (Seq (Lit col) (Seq (Many1 c2) (Many1 c3)))))) \<longleftrightarrow>
   (\<exists>kw attr ws txt.
      w = sl @ kw @ attr @ col @ ws @ txt
      \<and> (kw = k1 \<or> kw = k2)
      \<and> (attr = [] \<or> (\<exists>who. who \<noteq> [] \<and> list_all (in_cls c1) who \<and> attr = lp @ who @ rp))
      \<and> ws \<noteq> [] \<and> list_all (in_cls c2) ws
      \<and> txt \<noteq> [] \<and> list_all (in_cls c3) txt)" (is "?L \<longleftrightarrow> ?R")
proof
  assume ?L
  then obtain u1 v1 where w: "w = u1 @ v1" and u1: "u1 \<in> lang (Lit sl)"
    and v1: "v1 \<in> lang (Seq (Alt (Lit k1) (Lit k2))
         (Seq (Opt (Seq (Lit lp) (Seq (Many1 c1) (Lit rp))))
           (Seq (Lit col) (Seq (Many1 c2) (Many1 c3)))))"
    by (rule lang_SeqE)
  from v1 obtain kw v2 where v1e: "v1 = kw @ v2" and kw: "kw \<in> lang (Alt (Lit k1) (Lit k2))"
    and v2: "v2 \<in> lang (Seq (Opt (Seq (Lit lp) (Seq (Many1 c1) (Lit rp))))
           (Seq (Lit col) (Seq (Many1 c2) (Many1 c3))))"
    by (rule lang_SeqE)
  from v2 obtain attr v3 where v2e: "v2 = attr @ v3"
    and attr: "attr \<in> lang (Opt (Seq (Lit lp) (Seq (Many1 c1) (Lit rp))))"
    and v3: "v3 \<in> lang (Seq (Lit col) (Seq (Many1 c2) (Many1 c3)))"
    by (rule lang_SeqE)
  from v3 obtain ws body where v3e: "v3 = col @ ws @ body" and
    t: "ws \<noteq> []" "list_all (in_cls c2) ws" "body \<noteq> []" "list_all (in_cls c3) body"
    unfolding lang_tail_shape by blast
  have "u1 = sl" using u1 by simp
  then have "w = sl @ kw @ attr @ col @ ws @ body"
    by (simp add: w v1e v2e v3e)
  moreover have "kw = k1 \<or> kw = k2" using kw by auto
  ultimately show ?R
    using attr[unfolded lang_attr_shape] t by blast
next
  assume ?R
  then obtain kw attr ws body where w: "w = sl @ kw @ attr @ col @ ws @ body"
    and kw: "kw = k1 \<or> kw = k2"
    and attr: "attr = [] \<or> (\<exists>who. who \<noteq> [] \<and> list_all (in_cls c1) who \<and> attr = lp @ who @ rp)"
    and t: "ws \<noteq> []" "list_all (in_cls c2) ws" "body \<noteq> []" "list_all (in_cls c3) body"
    by blast
  have a: "attr \<in> lang (Opt (Seq (Lit lp) (Seq (Many1 c1) (Lit rp))))"
    using attr unfolding lang_attr_shape .
  have b: "col @ ws @ body \<in> lang (Seq (Lit col) (Seq (Many1 c2) (Many1 c3)))"
    unfolding lang_tail_shape using t by blast
  have k: "kw \<in> lang (Alt (Lit k1) (Lit k2))"
    using kw by auto
  have s: "sl \<in> lang (Lit sl)" by simp
  show ?L
    unfolding w by (intro lang_SeqI s k a b)
qed

lemma search_strict_shape:
  "(\<exists>pre w post. (\<exists>kw attr ws body.
      w = sl @ kw @ attr @ col @ ws @ body
      \<and> (kw = k1 \<or> kw = k2)
      \<and> (attr = [] \<or> (\<exists>who. who \<noteq> [] \<and> P1 who \<and> attr = lp @ who @ rp))
      \<and> ws \<noteq> [] \<and> P2 ws \<and> body \<noteq> [] \<and> P3 body) \<and> line = pre @ w @ post) \<longleftrightarrow>
   (\<exists>pre kw attr ws body post.
      line = pre @ sl @ kw @ attr @ col @ ws @ body @ post
      \<and> (kw = k1 \<or> kw = k2)
      \<and> (attr = [] \<or> (\<exists>who. who \<noteq> [] \<and> P1 who \<and> attr = lp @ who @ rp))
      \<and> ws \<noteq> [] \<and> P2 ws \<and> body \<noteq> [] \<and> P3 body)" (is "?L \<longleftrightarrow> ?R")
proof
  assume ?L
  then obtain pre w post kw attr ws body where
    "w = sl @ kw @ attr @ col @ ws @ body" "line = pre @ w @ post"
    and r: "kw = k1 \<or> kw = k2"
      "attr = [] \<or> (\<exists>who. who \<noteq> [] \<and> P1 who \<and> attr = lp @ who @ rp)"
      "ws \<noteq> []" "P2 ws" "body \<noteq> []" "P3 body"
    by blast
  then have "line = pre @ sl @ kw @ attr @ col @ ws @ body @ post"
    by simp
  with r show ?R by blast
next
  assume ?R
  then obtain pre kw attr ws body post where
    l: "line = pre @ sl @ kw @ attr @ col @ ws @ body @ post"
    and r: "kw = k1 \<or> kw = k2"
      "attr = [] \<or> (\<exists>who. who \<noteq> [] \<and> P1 who \<and> attr = lp @ who @ rp)"
      "ws \<noteq> []" "P2 ws" "body \<noteq> []" "P3 body"
    by blast
  from l have "line = pre @ (sl @ kw @ attr @ col @ ws @ body) @ post"
    by simp
  with r show ?L by blast
qed

lemma cls_predicates:
  "list_all (in_cls Space) = list_all isspace"
  "list_all (in_cls (Not_of [c])) = (\<lambda>w. c \<notin> set w)"
  "list_all (in_cls Dot) = (\<lambda>w. LF \<notin> set w)"
  by (auto simp: list_all_iff fun_eq_iff)

lemma valid_pattern_search: "re_search valid_pattern line \<longleftrightarrow> strict_format line"
  unfolding re_search_iff valid_pattern_def lang_strict_shape strict_format_def cls_predicates
  by (rule search_strict_shape)

section \<open>The guard name derivation\<close>



section \<open>The loop of check-todos.py\<close>

lemma scan_lines_eq:
  "scan_lines i lines acc =
   acc @ map (\<lambda>(n, l). issue_line n l)
           (filter (\<lambda>(n, l). malformed l) (zip [i..<i + length lines] lines))"
proof (induction lines arbitrary: i acc)
  case Nil
  then show ?case by simp
next
  case (Cons l ls)
  have "[i..<i + length (l # ls)] = i # [Suc i..<Suc i + length ls]"
    by (simp add: upt_conv_Cons del: upt_Suc)
  then have z: "zip [i..<i + length (l # ls)] (l # ls) = (i, l) # zip [Suc i..<Suc i + length ls] ls"
    by (simp only: zip_Cons_Cons)
  show ?case
    unfolding z
    by (simp add: Cons.IH todo_pattern_search valid_pattern_search malformed_def)
qed



section \<open>The annotation format check\<close>




text \<open>
  Claim C9. Only lines in which \<^verbatim>\<open>TODO\<close> or \<^verbatim>\<open>FIXME\<close> follows the two slashes directly are
  examined. A line without such a marker adds no report, whatever else it holds; a file
  of such lines has no report. \<^verbatim>\<open>// TODO fix this\<close>, with a space after the slashes, has
  no marker in this sense and is not reported although it lacks the strict format.
\<close>

theorem spaced_marker_not_examined:
  "(\<not> has_marker line \<longrightarrow> scan_lines i (line # rest) issues = scan_lines (Suc i) rest issues)
   \<and> (list_all (\<lambda>l. \<not> has_marker l) lines \<longrightarrow> todo_issues lines = [])
   \<and> \<not> has_marker ''// TODO fix this''
   \<and> \<not> strict_format ''// TODO fix this''
   \<and> todo_issues [''// TODO fix this''] = []"
proof (intro conjI impI)
  assume "\<not> has_marker line"
  then show "scan_lines i (line # rest) issues = scan_lines (Suc i) rest issues"
    by (simp add: todo_pattern_search)
next
  assume h: "list_all (\<lambda>l. \<not> has_marker l) lines"
  have "filter (\<lambda>(n, l). malformed l) (zip [1..<1 + length lines] lines) = []"
    unfolding filter_empty_conv
  proof
    fix p
    assume "p \<in> set (zip [1..<1 + length lines] lines)"
    then have "snd p \<in> set lines"
      by (metis prod.collapse set_zip_rightD)
    with h have "\<not> has_marker (snd p)"
      by (simp add: list_all_iff)
    then show "\<not> (case p of (n, l) \<Rightarrow> malformed l)"
      by (cases p) (simp add: malformed_def)
  qed
  then show "todo_issues lines = []"
    unfolding todo_issues_def scan_lines_eq by simp
next
  have "\<not> re_search todo_pattern ''// TODO fix this''"
    by code_simp
  then show "\<not> has_marker ''// TODO fix this''"
    unfolding todo_pattern_search .
next
  have "\<not> re_search valid_pattern ''// TODO fix this''"
    by code_simp
  then show "\<not> strict_format ''// TODO fix this''"
    unfolding valid_pattern_search .
next
  show "todo_issues [''// TODO fix this''] = []"
    by code_simp
qed

theorem spaced_marker_not_examined_witness:
  "scan_lines 7 [''// FIXME later''] [''earlier''] = [''earlier'']
   \<and> todo_issues [''// TODO fix this'', ''int x; // FIXME broken''] = []"
proof -
  have a: "\<not> has_marker ''// FIXME later''"
    using todo_pattern_search [of "''// FIXME later''"] by code_simp
  have b: "\<not> has_marker ''// TODO fix this''"
    using todo_pattern_search [of "''// TODO fix this''"] by code_simp
  have c: "\<not> has_marker ''int x; // FIXME broken''"
    using todo_pattern_search [of "''int x; // FIXME broken''"] by code_simp
  have l: "list_all (\<lambda>l. \<not> has_marker l) [''// TODO fix this'', ''int x; // FIXME broken'']"
    using b c by simp
  from spaced_marker_not_examined [of "''// FIXME later''" 7 "[]" "[''earlier'']"] a
  have "scan_lines 7 [''// FIXME later''] [''earlier''] = scan_lines 8 [] [''earlier'']"
    by simp
  moreover from spaced_marker_not_examined
    [of _ _ _ _ "[''// TODO fix this'', ''int x; // FIXME broken'']"] l
  have "todo_issues [''// TODO fix this'', ''int x; // FIXME broken''] = []"
    by blast
  ultimately show ?thesis by simp
qed

section \<open>The runner\<close>

lemma check_loop_eq:
  "check_loop check files (out, failed) =
   (out @ concat (map (\<lambda>f. fst (check f)) files),
    failed @ filter (\<lambda>f. \<not> snd (check f)) files)"
proof (induction files arbitrary: out failed)
  case Nil
  then show ?case by simp
next
  case (Cons f fs)
  show ?case
    by (cases "check f") (simp add: Cons.IH)
qed

lemma runner_main_eq:
  "runner_main check what (script # files) =
   (concat (map (\<lambda>f. fst (check f)) files)
      @ (if filter (\<lambda>f. \<not> snd (check f)) files \<noteq> []
         then [summary_line what (length (filter (\<lambda>f. \<not> snd (check f)) files))] else []),
    if filter (\<lambda>f. \<not> snd (check f)) files \<noteq> [] then 1 else 0)"
proof (cases files)
  case Nil
  then show ?thesis by (simp add: runner_main_def)
next
  case (Cons f fs)
  then show ?thesis
    by (simp add: runner_main_def check_loop_eq)
qed







text \<open>
  Claim C7. With no file argument, each of the three checkers exits with code 0 and
  prints nothing.
\<close>

theorem empty_file_list_succeeds:
  "check_header_guards_main fs [script] = ([], 0)
   \<and> check_todos_main fs [script] = ([], 0)
   \<and> check_namespaces_main fs [script] = ([], 0)
   \<and> check_header_guards_main fs [] = ([], 0)
   \<and> check_todos_main fs [] = ([], 0)
   \<and> check_namespaces_main fs [] = ([], 0)"
  by (simp add: check_header_guards_main_def check_todos_main_def check_namespaces_main_def
      runner_main_def)

theorem empty_file_list_succeeds_witness:
  "check_header_guards_main example_fs [''check-header-guards.py''] = ([], 0)
   \<and> check_todos_main example_fs [''check-todos.py''] = ([], 0)
   \<and> check_namespaces_main example_fs [''check-namespaces.py''] = ([], 0)"
  using empty_file_list_succeeds [of example_fs "''check-header-guards.py''"]
    empty_file_list_succeeds [of example_fs "''check-todos.py''"]
    empty_file_list_succeeds [of example_fs "''check-namespaces.py''"]
  by blast

text \<open>
  Claim C5. When reading a file raises, \<^verbatim>\<open>check_header_guard\<close> and \<^verbatim>\<open>check_todos\<close> fail
  that file with one line of output that contains the exception's message, and the run
  goes on: the output of \<^verbatim>\<open>main\<close> holds the output of the files before it, that line, and
  the output of the files after it, then the summary.
\<close>

theorem read_fault_is_per_file_failure:
  assumes "fs f = Inl msg"
  shows "check_header_guard fs f = ([read_error_line f msg], False)
   \<and> check_todos fs f = ([read_error_line f msg], False)
   \<and> sublist msg (read_error_line f msg)
   \<and> check_header_guards_main fs (script # before @ f # after) =
       (concat (map (\<lambda>g. fst (check_header_guard fs g)) before)
        @ [read_error_line f msg]
        @ concat (map (\<lambda>g. fst (check_header_guard fs g)) after)
        @ [summary_line ''header guard''
             (length (failing (check_header_guard fs) (before @ f # after)))], 1)
   \<and> check_todos_main fs (script # before @ f # after) =
       (concat (map (\<lambda>g. fst (check_todos fs g)) before)
        @ [read_error_line f msg]
        @ concat (map (\<lambda>g. fst (check_todos fs g)) after)
        @ [summary_line ''TODO/FIXME format''
             (length (failing (check_todos fs) (before @ f # after)))], 1)"
proof (intro conjI)
  show a: "check_header_guard fs f = ([read_error_line f msg], False)"
    using assms by (simp add: check_header_guard_def)
  show b: "check_todos fs f = ([read_error_line f msg], False)"
    using assms by (simp add: check_todos_def)
  show "sublist msg (read_error_line f msg)"
    unfolding read_error_line_def sublist_def by (metis append.assoc append_Nil2)
  show "check_header_guards_main fs (script # before @ f # after) =
       (concat (map (\<lambda>g. fst (check_header_guard fs g)) before)
        @ [read_error_line f msg]
        @ concat (map (\<lambda>g. fst (check_header_guard fs g)) after)
        @ [summary_line ''header guard''
             (length (failing (check_header_guard fs) (before @ f # after)))], 1)"
    unfolding check_header_guards_main_def runner_main_eq failing_def
    using a by simp
  show "check_todos_main fs (script # before @ f # after) =
       (concat (map (\<lambda>g. fst (check_todos fs g)) before)
        @ [read_error_line f msg]
        @ concat (map (\<lambda>g. fst (check_todos fs g)) after)
        @ [summary_line ''TODO/FIXME format''
             (length (failing (check_todos fs) (before @ f # after)))], 1)"
    unfolding check_todos_main_def runner_main_eq failing_def
    using b by simp
qed

theorem read_fault_is_per_file_failure_witness:
  "check_todos example_fs ''src/c.h''
     = ([''Error reading src/c.h: [Errno 13] Permission denied''], False)
   \<and> check_todos_main example_fs [''check-todos.py'', ''src/a.h'', ''src/c.h'', ''src/b.h'']
     = ([''Error reading src/c.h: [Errno 13] Permission denied'',
         ''src/b.h:'',
         ''  TODO/FIXME must be formatted as: // TODO: description'',
         ''  Line 1: int x; //TODO later'',
         LF # ''2 file(s) with TODO/FIXME format issues''], 1)"
proof -
  have h: "example_fs ''src/c.h'' = Inl ''[Errno 13] Permission denied''"
    by (simp add: example_fs_def)
  note t = read_fault_is_per_file_failure
    [of example_fs "''src/c.h''" "''[Errno 13] Permission denied''"
        "''check-todos.py''" "[''src/a.h'']" "[''src/b.h'']", OF h]
  have a: "check_todos example_fs ''src/c.h''
     = ([read_error_line ''src/c.h'' ''[Errno 13] Permission denied''], False)"
    using t by blast
  have b: "check_todos_main example_fs (''check-todos.py'' # [''src/a.h''] @ ''src/c.h'' # [''src/b.h''])
     = (concat (map (\<lambda>g. fst (check_todos example_fs g)) [''src/a.h''])
        @ [read_error_line ''src/c.h'' ''[Errno 13] Permission denied'']
        @ concat (map (\<lambda>g. fst (check_todos example_fs g)) [''src/b.h''])
        @ [summary_line ''TODO/FIXME format''
             (length (failing (check_todos example_fs) ([''src/a.h''] @ ''src/c.h'' # [''src/b.h''])))], 1)"
    using t by blast
  have c: "(concat (map (\<lambda>g. fst (check_todos example_fs g)) [''src/a.h''])
        @ [read_error_line ''src/c.h'' ''[Errno 13] Permission denied'']
        @ concat (map (\<lambda>g. fst (check_todos example_fs g)) [''src/b.h''])
        @ [summary_line ''TODO/FIXME format''
             (length (failing (check_todos example_fs) ([''src/a.h''] @ ''src/c.h'' # [''src/b.h''])))])
     = [''Error reading src/c.h: [Errno 13] Permission denied'',
         ''src/b.h:'',
         ''  TODO/FIXME must be formatted as: // TODO: description'',
         ''  Line 1: int x; //TODO later'',
         LF # ''2 file(s) with TODO/FIXME format issues'']"
    by code_simp
  show ?thesis
    using a b unfolding c by (simp add: read_error_line_def)
qed

section \<open>The namespace check\<close>

text \<open>
  Claim C4, as stated, says \<^verbatim>\<open>check_namespaces\<close> succeeds whatever the content or
  readability of the file. An unreadable file fails:
\<close>

theorem check_namespaces_unreadable_fails:
  "check_namespaces (\<lambda>p. Inl ''[Errno 13] Permission denied'') ''src/a.h''
     = ([''Error reading src/a.h: [Errno 13] Permission denied''], False)"
  by (simp add: check_namespaces_def read_error_line_def)

text \<open>
  Claim C4, amended. For every file that can be read, whatever its content,
  \<^verbatim>\<open>check_namespaces\<close> reports success and prints nothing; a file whose read raises is
  reported as failed with the one line \<^verbatim>\<open>Error reading ...\<close>. So success is exactly
  readability.
\<close>

theorem check_namespaces_readable_passes:
  "(fs f = Inr content \<longrightarrow> check_namespaces fs f = ([], True))
   \<and> (fs f = Inl e \<longrightarrow> check_namespaces fs f = ([read_error_line f e], False))
   \<and> (snd (check_namespaces fs f) \<longleftrightarrow> (\<exists>content. fs f = Inr content))"
  by (cases "fs f") (simp_all add: check_namespaces_def)

theorem check_namespaces_readable_passes_witness:
  "check_namespaces example_fs ''src/b.h'' = ([], True)
   \<and> check_namespaces example_fs ''src/c.h''
       = ([''Error reading src/c.h: [Errno 13] Permission denied''], False)"
proof -
  have a: "example_fs ''src/b.h'' = Inr ''int x; //TODO later''"
    by (simp add: example_fs_def)
  have b: "example_fs ''src/c.h'' = Inl ''[Errno 13] Permission denied''"
    by (simp add: example_fs_def)
  from check_namespaces_readable_passes [of example_fs "''src/b.h''" "''int x; //TODO later''"] a
  have "check_namespaces example_fs ''src/b.h'' = ([], True)" by blast
  moreover
  from check_namespaces_readable_passes
    [of example_fs "''src/c.h''" _ "''[Errno 13] Permission denied''"] b
  have "check_namespaces example_fs ''src/c.h''
      = ([read_error_line ''src/c.h'' ''[Errno 13] Permission denied''], False)" by blast
  ultimately show ?thesis
    by (simp add: read_error_line_def)
qed

section \<open>The header guard check\<close>




















section \<open>The clang-tidy wrapper\<close>




section \<open>Subprocess calls\<close>

text \<open>
  Claim C8, as stated, says every subprocess call of the coverage wrapper carries a
  timeout of 300 and that a timeout or launch fault is a failure of that step only. Its
  \<^verbatim>\<open>run_command\<close> passes no timeout and lets a launch fault out as an exception: in an
  environment where only calls with timeout 300 succeed, the call fails and raises.
\<close>

theorem coverage_run_command_no_timeout:
  "coverage_run_command ''x''
     (\<lambda>c. if call_timeout c = Some 300 then Completed 0 ''ok'' []
          else Raised (OSError ''[Errno 2] No such file or directory: cmake''))
     [''cmake'', ''--build'', ''build''] False
   = ([], Inl (OSError ''[Errno 2] No such file or directory: cmake''))"
  by (simp add: coverage_run_command_def)

text \<open>
  Claim C8, amended. Every call made by \<^verbatim>\<open>run_command\<close> of run-code-quality.py carries the
  timeout 300 (its result depends on the environment only through calls with that
  timeout), and a timeout or launch fault there becomes the failed step
  \<^verbatim>\<open>(False, "", message)\<close>, a completed process the step \<^verbatim>\<open>(returncode == 0, stdout, stderr)\<close>.
  \<^verbatim>\<open>run_command\<close> of run-coverage.py makes its call without a timeout, and an exception of
  the call leaves it as an exception.
\<close>

theorem quality_run_command_timeout_300:
  "((\<forall>c. call_timeout c = Some 300 \<longrightarrow> run c = run' c) \<longrightarrow>
      quality_run_command run cmd description = quality_run_command run' cmd description)
   \<and> (run \<lparr>call_cmd = cmd, call_timeout = Some 300, call_check = False\<rparr> = Raised e \<longrightarrow>
        quality_run_command run cmd description
          = ([''[*] '' @ description], (False, [], str_exception e)))
   \<and> (run \<lparr>call_cmd = cmd, call_timeout = Some 300, call_check = False\<rparr>
          = Completed returncode out err \<longrightarrow>
        quality_run_command run cmd description
          = ([''[*] '' @ description], (returncode = 0, out, err)))
   \<and> ((\<forall>c. call_timeout c = None \<longrightarrow> run c = run' c) \<longrightarrow>
        coverage_run_command cross run cmd check = coverage_run_command cross run' cmd check)
   \<and> (run \<lparr>call_cmd = cmd, call_timeout = None, call_check = check\<rparr> = Raised e \<longrightarrow>
        snd (coverage_run_command cross run cmd check) = Inl e)"
  by (auto simp: quality_run_command_def coverage_run_command_def split: py_exception.splits)

theorem quality_run_command_timeout_300_witness:
  "quality_run_command
     (\<lambda>c. if call_timeout c = Some 300
          then Raised (TimeoutExpired ''Command timed out after 300 seconds'')
          else Completed 0 ''done'' [])
     [''clang-format'', ''--version''] []
   = ([''[*] ''], (False, [], ''Command timed out after 300 seconds''))
   \<and> snd (coverage_run_command ''x''
         (\<lambda>c. if call_timeout c = Some 300
              then Completed 0 ''done'' []
              else Raised (OSError ''[Errno 2] No such file or directory: cmake''))
         [''cmake''] True)
     = Inl (OSError ''[Errno 2] No such file or directory: cmake'')"
proof -
  let ?slow = "\<lambda>c. if call_timeout c = Some 300
          then Raised (TimeoutExpired ''Command timed out after 300 seconds'')
          else Completed 0 ''done'' []"
  let ?missing = "\<lambda>c. if call_timeout c = Some 300
              then Completed 0 ''done'' []
              else Raised (OSError ''[Errno 2] No such file or directory: cmake'')"
  have a: "?slow \<lparr>call_cmd = [''clang-format'', ''--version''], call_timeout = Some 300,
        call_check = False\<rparr> = Raised (TimeoutExpired ''Command timed out after 300 seconds'')"
    by simp
  have b: "?missing \<lparr>call_cmd = [''cmake''], call_timeout = None, call_check = True\<rparr>
      = Raised (OSError ''[Errno 2] No such file or directory: cmake'')"
    by simp
  from quality_run_command_timeout_300
    [of ?slow _ "[''clang-format'', ''--version'']" "[]"
        "TimeoutExpired ''Command timed out after 300 seconds''"] a
  have "quality_run_command ?slow [''clang-format'', ''--version''] []
      = ([''[*] '' @ []], (False, [],
          str_exception (TimeoutExpired ''Command timed out after 300 seconds'')))"
    by blast
  moreover
  from quality_run_command_timeout_300
    [of ?missing _ "[''cmake'']" _ "OSError ''[Errno 2] No such file or directory: cmake''"
        _ _ _ _ True] b
  have "snd (coverage_run_command ''x'' ?missing [''cmake''] True)
      = Inl (OSError ''[Errno 2] No such file or directory: cmake'')"
    by blast
  ultimately show ?thesis
    by simp
qed

end
